theory Spec2Isabelle
  imports Complex_Main "HOL-Library.Log_Nat"
begin

section \<open>The heart-rate monitor of \<open>src/main.py\<close>\<close>

text \<open>
  The class \<open>HeartRateMonitor\<close> keeps three parallel Python lists and three
  configuration numbers. Its methods are embedded as functions on a record of these six
  fields. A number is a Python \<open>int\<close> (exact, unbounded) or a Python \<open>float\<close>; the
  result of every float operation is the exact result rounded to the nearest float. A
  timestamp and a configuration value are integers. A Python exception is the left
  summand of the result.
\<close>

datatype error = ZeroDivisionError | ValueError | IndexError | TypeError

subsection \<open>Floats\<close>

text \<open>
  A float is the rational it denotes. \<open>rnd\<close> rounds a rational to the nearest number
  with a 53-bit significand, ties to the even significand (IEEE 754 binary64, the float
  of CPython and of MicroPython's double-precision builds). The exponent range is not
  bounded: overflow to infinity and underflow are not modelled. \<open>exponent y\<close> is the
  \<open>e\<close> with \<open>2^e \<le> y < 2^(e+1)\<close> for a positive \<open>y\<close>.
\<close>

definition round_half_even :: "rat \<Rightarrow> int" where
  "round_half_even y =
     (let f = \<lfloor>y\<rfloor>; d = y - of_int f
      in if d < 1 / 2 then f else if 1 / 2 < d then f + 1 else if even f then f else f + 1)"

definition exponent :: "rat \<Rightarrow> int" where
  "exponent y = (if 1 \<le> y then bitlen \<lfloor>y\<rfloor> - 1 else - bitlen (\<lceil>1 / y\<rceil> - 1))"

definition round_magnitude :: "rat \<Rightarrow> rat" where
  "round_magnitude y =
     (let q = 2 powi (exponent y - 52) in of_int (round_half_even (y / q)) * q)"

definition rnd :: "rat \<Rightarrow> rat" where
  "rnd x = (if x = 0 then 0 else if 0 < x then round_magnitude x else - round_magnitude (- x))"

subsection \<open>Python numbers and the primitives the methods use\<close>

datatype num = PyInt int | PyFloat rat

fun val :: "num \<Rightarrow> rat" where
  "val (PyInt i) = of_int i"
| "val (PyFloat r) = r"

text \<open>The conversion \<open>float(x)\<close> that a mixed or a true-division operation applies.\<close>

fun to_float :: "num \<Rightarrow> rat" where
  "to_float (PyInt i) = rnd (of_int i)"
| "to_float (PyFloat r) = r"

text \<open>
  \<open>+\<close>, \<open>-\<close> and \<open>*\<close>: exact on two ints, otherwise the float operation on the converted
  operands. Comparisons (\<open><\<close>, \<open>>\<close>) compare the values \<open>val\<close> exactly.
\<close>

fun num_add :: "num \<Rightarrow> num \<Rightarrow> num" where
  "num_add (PyInt i) (PyInt j) = PyInt (i + j)"
| "num_add a b = PyFloat (rnd (to_float a + to_float b))"

fun num_sub :: "num \<Rightarrow> num \<Rightarrow> num" where
  "num_sub (PyInt i) (PyInt j) = PyInt (i - j)"
| "num_sub a b = PyFloat (rnd (to_float a - to_float b))"

fun num_mul :: "num \<Rightarrow> num \<Rightarrow> num" where
  "num_mul (PyInt i) (PyInt j) = PyInt (i * j)"
| "num_mul a b = PyFloat (rnd (to_float a * to_float b))"

text \<open>
  True division \<open>a / b\<close>: raises on a zero divisor, and is otherwise the float quotient of
  the converted operands (MicroPython converts two ints before it divides; on ints up to
  \<open>2^53\<close> in magnitude, which convert exactly, this is also CPython's correctly rounded
  quotient).
\<close>

definition num_truediv :: "num \<Rightarrow> num \<Rightarrow> error + num" where
  "num_truediv a b =
     (if val b = 0 then Inl ZeroDivisionError
      else Inr (PyFloat (rnd (to_float a / to_float b))))"

text \<open>
  The builtin \<open>sum\<close>: it starts from the int \<open>0\<close> and adds from left to right with
  \<open>+\<close>, each float addition rounded.
\<close>

definition py_sum :: "num list \<Rightarrow> num" where
  "py_sum xs = foldl num_add (PyInt 0) xs"

text \<open>
  The slice \<open>xs[a:]\<close>: a negative start counts from the end and is clipped at the
  front, a non-negative start is clipped at the end.
\<close>

definition slice_from :: "int \<Rightarrow> 'a list \<Rightarrow> 'a list" where
  "slice_from a xs =
     (if a < 0 then drop (nat (int (length xs) + a)) xs else drop (nat a) xs)"

text \<open>
  The builtins \<open>min\<close> and \<open>max\<close> on a list: \<open>ValueError\<close> on the empty list, otherwise
  the first least (greatest) element.
\<close>

fun py_min :: "num list \<Rightarrow> error + num" where
  "py_min [] = Inl ValueError"
| "py_min (x # xs) = Inr (foldl (\<lambda>best y. if val y < val best then y else best) x xs)"

fun py_max :: "num list \<Rightarrow> error + num" where
  "py_max [] = Inl ValueError"
| "py_max (x # xs) = Inr (foldl (\<lambda>best y. if val best < val y then y else best) x xs)"

text \<open>
  Modelled from the spec: \<open>ticks_diff\<close> comes from MicroPython's \<open>utime\<close> module,
  which is not under \<open>src/\<close>. The spec calls it the signed, wraparound-safe subtraction
  of two readings of the monotonic millisecond clock. MicroPython computes it in the ring
  of \<open>TICKS_PERIOD\<close> clock values, with a result in
  \<open>[-TICKS_PERIOD/2, TICKS_PERIOD/2)\<close>; the period is \<open>2^30\<close> on its 32-bit ports.
\<close>

definition TICKS_PERIOD :: int where
  "TICKS_PERIOD = 2 ^ 30"

definition ticks_diff :: "int \<Rightarrow> int \<Rightarrow> int" where
  "ticks_diff t1 t2 =
     (t1 - t2 + TICKS_PERIOD div 2) mod TICKS_PERIOD - TICKS_PERIOD div 2"

subsection \<open>The monitor and \<open>__init__\<close>\<close>

record HeartRateMonitor =
  sample_rate :: int
  window_size :: int
  smoothing_window :: int
  samples :: "num list"
  timestamps :: "int list"
  filtered_samples :: "num list"

type_synonym peak = "int \<times> num"

text \<open>The constructor stores its three arguments unchecked and starts with empty lists.\<close>

definition init :: "int \<Rightarrow> int \<Rightarrow> int \<Rightarrow> HeartRateMonitor" where
  "init sr ws sw =
     \<lparr>sample_rate = sr, window_size = ws, smoothing_window = sw,
      samples = [], timestamps = [], filtered_samples = []\<rparr>"

subsection \<open>\<open>add_sample\<close>\<close>

text \<open>
  \<open>add_sample(self, sample)\<close> reads the clock itself (\<open>ticks_ms()\<close>, line 18); the
  reading is the argument \<open>now\<close> of the model. \<open>pop(0)\<close> is \<open>tl\<close>: each of the three
  lists has just been appended to when it is popped. The only statement that can raise is
  the division of line 24; lines 19 and 20 have then already extended the raw and the
  timestamp list, a half-updated monitor that the error result does not carry.
\<close>

definition add_sample :: "HeartRateMonitor \<Rightarrow> int \<Rightarrow> num \<Rightarrow> error + HeartRateMonitor" where
  "add_sample m now sample =
     (let samples1 = samples m @ [sample];
          timestamps1 = timestamps m @ [now]
      in case (if smoothing_window m \<le> int (length samples1)
               then (case num_truediv (py_sum (slice_from (- smoothing_window m) samples1))
                                      (PyInt (smoothing_window m)) of
                       Inl e \<Rightarrow> Inl e
                     | Inr smoothed_sample \<Rightarrow> Inr (filtered_samples m @ [smoothed_sample]))
               else Inr (filtered_samples m @ [sample])) of
           Inl e \<Rightarrow> Inl e
         | Inr filtered1 \<Rightarrow>
             if window_size m < int (length samples1)
             then Inr (m\<lparr>samples := tl samples1, timestamps := tl timestamps1,
                         filtered_samples := tl filtered1\<rparr>)
             else Inr (m\<lparr>samples := samples1, timestamps := timestamps1,
                         filtered_samples := filtered1\<rparr>))"

text \<open>
  A call site passes positional arguments; Python binds them to the parameter list
  \<open>(self, sample)\<close> and raises \<open>TypeError\<close> when their number is not one.
\<close>

definition add_sample_call :: "HeartRateMonitor \<Rightarrow> int \<Rightarrow> num list \<Rightarrow> error + HeartRateMonitor" where
  "add_sample_call m now args =
     (case args of [sample] \<Rightarrow> add_sample m now sample | _ \<Rightarrow> Inl TypeError)"

text \<open>
  A run of the acquisition loop's calls: each pair is the clock reading of a call and the
  sample passed to it. The first exception ends the run.
\<close>

fun feed :: "HeartRateMonitor \<Rightarrow> (int \<times> num) list \<Rightarrow> error + HeartRateMonitor" where
  "feed m [] = Inr m"
| "feed m (p # rest) =
     (case add_sample m (fst p) (snd p) of Inl e \<Rightarrow> Inl e | Inr m' \<Rightarrow> feed m' rest)"

subsection \<open>\<open>find_peaks\<close>\<close>

text \<open>
  The scan \<open>for i in range(1, len(self.filtered_samples) - 1)\<close> over the list of its
  indices, with the list \<open>peaks\<close> as accumulator. \<open>self.timestamps[i]\<close> raises
  \<open>IndexError\<close> when the timestamp list is too short; the reads of the filtered list
  are within range for every index of the loop.
\<close>

fun peaks_loop :: "num list \<Rightarrow> int list \<Rightarrow> num \<Rightarrow> nat list \<Rightarrow> peak list \<Rightarrow> error + peak list" where
  "peaks_loop fs ts threshold [] peaks = Inr peaks"
| "peaks_loop fs ts threshold (i # rest) peaks =
     (if val threshold < val (fs ! i) \<and> val (fs ! (i - 1)) < val (fs ! i) \<and>
         val (fs ! (i + 1)) < val (fs ! i)
      then (if i < length ts
            then peaks_loop fs ts threshold rest (peaks @ [(ts ! i, fs ! i)])
            else Inl IndexError)
      else peaks_loop fs ts threshold rest peaks)"

text \<open>Line 45: \<open>min_val + (max_val - min_val) * 0.5\<close>.\<close>

definition threshold_of :: "num \<Rightarrow> num \<Rightarrow> num" where
  "threshold_of min_val max_val =
     num_add min_val (num_mul (num_sub max_val min_val) (PyFloat (1 / 2)))"

definition find_peaks :: "HeartRateMonitor \<Rightarrow> error + peak list" where
  "find_peaks m =
     (if length (filtered_samples m) < 3 then Inr []
      else
        let recent_samples = slice_from (- window_size m) (filtered_samples m)
        in case py_min recent_samples of
             Inl e \<Rightarrow> Inl e
           | Inr min_val \<Rightarrow>
               (case py_max recent_samples of
                  Inl e \<Rightarrow> Inl e
                | Inr max_val \<Rightarrow>
                    peaks_loop (filtered_samples m) (timestamps m)
                      (threshold_of min_val max_val)
                      [1 ..< length (filtered_samples m) - 1] []))"

subsection \<open>\<open>calculate_heart_rate\<close>\<close>

text \<open>
  The loop \<open>for i in range(1, len(peaks))\<close> collecting the intervals, which are ints
  (\<open>ticks_diff\<close> returns an int), so that their \<open>sum\<close> is exact.
\<close>

fun intervals_loop :: "peak list \<Rightarrow> nat list \<Rightarrow> int list \<Rightarrow> int list" where
  "intervals_loop peaks [] intervals = intervals"
| "intervals_loop peaks (i # rest) intervals =
     intervals_loop peaks rest
       (intervals @ [ticks_diff (fst (peaks ! i)) (fst (peaks ! (i - 1)))])"

definition heart_rate_of :: "peak list \<Rightarrow> error + num option" where
  "heart_rate_of peaks =
     (if length peaks < 2 then Inr None
      else
        let intervals = intervals_loop peaks [1 ..< length peaks] []
        in case num_truediv (PyInt (sum_list intervals)) (PyInt (int (length intervals))) of
             Inl e \<Rightarrow> Inl e
           | Inr average_interval \<Rightarrow>
               (case num_truediv (PyInt 60000) average_interval of
                  Inl e \<Rightarrow> Inl e
                | Inr heart_rate \<Rightarrow> Inr (Some heart_rate)))"

definition calculate_heart_rate :: "HeartRateMonitor \<Rightarrow> error + num option" where
  "calculate_heart_rate m =
     (case find_peaks m of Inl e \<Rightarrow> Inl e | Inr peaks \<Rightarrow> heart_rate_of peaks)"

subsection \<open>The window invariant and some concrete windows\<close>

definition window_ok :: "HeartRateMonitor \<Rightarrow> bool" where
  "window_ok m =
     (length (samples m) = length (timestamps m) \<and>
      length (timestamps m) = length (filtered_samples m) \<and>
      int (length (samples m)) \<le> window_size m)"

text \<open>One pulse in a flat signal, with unit-spaced timestamps.\<close>

definition single_pulse :: HeartRateMonitor where
  "single_pulse =
     \<lparr>sample_rate = 100, window_size = 10, smoothing_window = 5,
      samples = map PyInt [0, 0, 0, 10, 0, 0, 0], timestamps = [0, 1, 2, 3, 4, 5, 6],
      filtered_samples = map PyInt [0, 0, 0, 10, 0, 0, 0]\<rparr>"


text \<open>
  Two pulses read at the same clock tick, and two pulses read while the clock ran
  backwards.
\<close>

definition duplicate_ticks :: HeartRateMonitor where
  "duplicate_ticks =
     \<lparr>sample_rate = 100, window_size = 10, smoothing_window = 1,
      samples = map PyInt [0, 10, 0, 10, 0], timestamps = [5, 5, 5, 5, 5],
      filtered_samples = map PyFloat [0, 10, 0, 10, 0]\<rparr>"

definition backward_ticks :: HeartRateMonitor where
  "backward_ticks =
     \<lparr>sample_rate = 100, window_size = 10, smoothing_window = 1,
      samples = map PyInt [0, 10, 0, 10, 0], timestamps = [4, 3, 2, 1, 0],
      filtered_samples = map PyFloat [0, 10, 0, 10, 0]\<rparr>"

text \<open>Three pulses one second apart.\<close>

definition three_beats :: HeartRateMonitor where
  "three_beats =
     \<lparr>sample_rate = 100, window_size = 10, smoothing_window = 1,
      samples = map PyInt [0, 10, 0, 10, 0, 10, 0],
      timestamps = [0, 0, 500, 1000, 1500, 2000, 2500],
      filtered_samples = map PyFloat [0, 10, 0, 10, 0, 10, 0]\<rparr>"

text \<open>Two pulses of five samples that were all read at clock tick 7.\<close>

definition same_tick_beats :: HeartRateMonitor where
  "same_tick_beats =
     \<lparr>sample_rate = 100, window_size = 10, smoothing_window = 1,
      samples = map PyInt [0, 20, 0, 20, 0], timestamps = [7, 7, 7, 7, 7],
      filtered_samples = map PyFloat [0, 20, 0, 20, 0]\<rparr>"

subsection \<open>A run seen from its whole history\<close>

text \<open>
  These three functions are not in the source; they say what a run from a fresh monitor
  has stored, in terms of all the raw values passed so far. \<open>trailing k xs\<close> is the last
  \<open>k\<close> elements of \<open>xs\<close>. \<open>smoothed ws sw ys\<close> is the filtered value that belongs to the
  newest of the raw values \<open>ys\<close>, and \<open>filtered_history\<close> lists it for every prefix of the
  run. Lemma \<open>feed_init_history\<close> below proves that \<open>add_sample\<close> computes exactly these.
\<close>

definition trailing :: "nat \<Rightarrow> 'a list \<Rightarrow> 'a list" where
  "trailing k xs = drop (length xs - k) xs"

definition smoothed :: "int \<Rightarrow> int \<Rightarrow> num list \<Rightarrow> num" where
  "smoothed ws sw ys =
     (if sw \<le> int (length ys) \<and> sw \<le> max ws 0 + 1
      then PyFloat (rnd (to_float (py_sum (trailing (nat sw) ys)) / rnd (of_int sw)))
      else last ys)"

definition filtered_history :: "int \<Rightarrow> int \<Rightarrow> num list \<Rightarrow> num list" where
  "filtered_history ws sw xs = map (\<lambda>k. smoothed ws sw (take (Suc k) xs)) [0 ..< length xs]"

section \<open>Properties\<close>

subsection \<open>Rounding to a float\<close>

lemma rhe_cases: "round_half_even y = \<lfloor>y\<rfloor> \<or> round_half_even y = \<lfloor>y\<rfloor> + 1"
  by (simp add: round_half_even_def Let_def)

lemma rhe_of_int [simp]: "round_half_even (of_int n) = n"
  by (simp add: round_half_even_def Let_def)

lemma rhe_mono: "a \<le> b \<Longrightarrow> round_half_even a \<le> round_half_even b"
proof (cases "\<lfloor>a\<rfloor> = \<lfloor>b\<rfloor>")
  case True
  assume "a \<le> b"
  then have "a - of_int \<lfloor>a\<rfloor> \<le> b - of_int \<lfloor>a\<rfloor>" by simp
  then show ?thesis
    using True by (auto simp: round_half_even_def Let_def)
next
  case False
  assume "a \<le> b"
  with False have "\<lfloor>a\<rfloor> < \<lfloor>b\<rfloor>"
    by (simp add: floor_mono order.not_eq_order_implies_strict)
  then show ?thesis
    using rhe_cases[of a] rhe_cases[of b] by linarith
qed

lemma exponent_bounds:
  assumes "0 < y"
  shows "2 powi exponent y \<le> y" and "y < 2 powi (exponent y + 1)"
proof -
  have "2 powi exponent y \<le> y \<and> y < 2 powi (exponent y + 1)"
  proof (cases "1 \<le> y")
    case True
    then have n: "0 < \<lfloor>y\<rfloor>" by linarith
    let ?b = "bitlen \<lfloor>y\<rfloor>"
    from bitlen_bounds[OF n] have lo: "2 ^ nat (?b - 1) \<le> \<lfloor>y\<rfloor>" and hi: "\<lfloor>y\<rfloor> < 2 ^ nat ?b"
      by simp_all
    have b1: "1 \<le> ?b" using n by (simp add: bitlen_alt_def)
    have "(2::rat) powi (?b - 1) = of_int (2 ^ nat (?b - 1))"
      using b1 by (simp add: power_int_def)
    also have "\<dots> \<le> of_int \<lfloor>y\<rfloor>" using lo by (simp only: of_int_le_iff)
    also have "\<dots> \<le> y" by simp
    finally have l: "2 powi (?b - 1) \<le> y" .
    have "\<lfloor>y\<rfloor> + 1 \<le> 2 ^ nat ?b" using hi by simp
    then have "(of_int (\<lfloor>y\<rfloor> + 1) :: rat) \<le> of_int (2 ^ nat ?b)" by (simp only: of_int_le_iff)
    moreover have "y < of_int (\<lfloor>y\<rfloor> + 1)" by linarith
    ultimately have "y < of_int (2 ^ nat ?b)" by linarith
    also have "\<dots> = 2 powi ?b" using b1 by (simp add: power_int_def)
    finally have "y < 2 powi ?b" .
    with l True show ?thesis by (simp add: exponent_def)
  next
    case False
    with assms have z: "1 < 1 / y" by simp
    let ?c = "\<lceil>1 / y\<rceil> - 1"
    let ?b = "bitlen ?c"
    have c: "0 < ?c" using z by linarith
    from bitlen_bounds[OF c] have lo: "2 ^ nat (?b - 1) \<le> ?c" and hi: "?c < 2 ^ nat ?b"
      by simp_all
    have b1: "1 \<le> ?b" using c by (simp add: bitlen_alt_def)
    have "1 / y \<le> of_int (?c + 1)" by (simp add: le_of_int_ceiling)
    also have "(of_int (?c + 1) :: rat) \<le> of_int (2 ^ nat ?b)"
      using hi by (simp only: of_int_le_iff)
    finally have "1 / y \<le> 2 ^ nat ?b" by simp
    then have "1 / 2 ^ nat ?b \<le> y"
      using assms by (simp add: field_simps)
    then have l: "2 powi (- ?b) \<le> y"
      using b1 by (simp add: power_int_def field_simps)
    have "(of_int (2 ^ nat (?b - 1)) :: rat) \<le> of_int ?c"
      using lo by (simp only: of_int_le_iff)
    moreover have "of_int ?c < 1 / y" by (simp add: less_ceiling_iff[symmetric]) linarith
    ultimately have "2 ^ nat (?b - 1) < 1 / y" by simp
    then have "y < 1 / 2 ^ nat (?b - 1)"
      using assms by (simp add: field_simps)
    also have "\<dots> = 2 powi (- ?b + 1)"
      using b1 by (simp add: power_int_def field_simps nat_diff_distrib)
    finally have "y < 2 powi (- ?b + 1)" .
    with l False show ?thesis by (simp add: exponent_def)
  qed
  then show "2 powi exponent y \<le> y" and "y < 2 powi (exponent y + 1)" by simp_all
qed

lemma pow2_less_imp: "(2::rat) powi a < 2 powi b \<Longrightarrow> a < b"
  using power_int_increasing[of b a "2::rat"] by (cases "a < b") simp_all

lemma exponent_unique:
  assumes "0 < y" and "2 powi e \<le> y" and "y < 2 powi (e + 1)"
  shows "exponent y = e"
proof -
  have "(2::rat) powi e < 2 powi (exponent y + 1)"
    using assms(2) exponent_bounds(2)[OF assms(1)] by linarith
  then have "e < exponent y + 1"
    by (rule pow2_less_imp)
  moreover have "(2::rat) powi exponent y < 2 powi (e + 1)"
    using assms(3) exponent_bounds(1)[OF assms(1)] by linarith
  then have "exponent y < e + 1"
    by (rule pow2_less_imp)
  ultimately show ?thesis by simp
qed

lemma exponent_mono:
  assumes "0 < x" and "x \<le> y"
  shows "exponent x \<le> exponent y"
proof -
  have "0 < y" using assms by simp
  have "(2::rat) powi exponent x < 2 powi (exponent y + 1)"
    using exponent_bounds(1)[OF assms(1)] exponent_bounds(2)[OF \<open>0 < y\<close>] assms(2) by linarith
  then have "exponent x < exponent y + 1"
    by (rule pow2_less_imp)
  then show ?thesis by simp
qed

lemma quantum_pos: "(0::rat) < 2 powi k"
  by simp

lemma round_magnitude_bounds:
  assumes "0 < y"
  shows "2 powi exponent y \<le> round_magnitude y" and "round_magnitude y \<le> 2 powi (exponent y + 1)"
proof -
  let ?e = "exponent y"
  let ?q = "(2::rat) powi (?e - 52)"
  have q: "0 < ?q" by simp
  have lo: "of_int (2 ^ 52) \<le> y / ?q"
  proof -
    have "(2::rat) powi ?e = 2 ^ 52 * ?q"
      by (simp add: power_int_diff)
    then show ?thesis
      using exponent_bounds(1)[OF assms] q by (simp add: pos_le_divide_eq)
  qed
  have hi: "y / ?q \<le> of_int (2 ^ 53)"
  proof -
    have "(2::rat) powi (?e + 1) = 2 ^ 53 * ?q"
      by (simp add: power_int_diff power_int_add)
    then show ?thesis
      using exponent_bounds(2)[OF assms] q by (simp add: pos_divide_le_eq)
  qed
  from rhe_mono[OF lo] have "2 ^ 52 \<le> round_half_even (y / ?q)" by (simp only: rhe_of_int)
  then have "(of_int (2 ^ 52) :: rat) \<le> of_int (round_half_even (y / ?q))"
    by (simp only: of_int_le_iff)
  then have "2 ^ 52 * ?q \<le> of_int (round_half_even (y / ?q)) * ?q"
    using q by simp
  moreover have "(2::rat) powi ?e = 2 ^ 52 * ?q"
    by (simp add: power_int_diff)
  ultimately show "2 powi ?e \<le> round_magnitude y"
    by (simp add: round_magnitude_def Let_def)
  from rhe_mono[OF hi] have "round_half_even (y / ?q) \<le> 2 ^ 53" by (simp only: rhe_of_int)
  then have "(of_int (round_half_even (y / ?q)) :: rat) \<le> of_int (2 ^ 53)"
    by (simp only: of_int_le_iff)
  then have "of_int (round_half_even (y / ?q)) * ?q \<le> 2 ^ 53 * ?q"
    using q by simp
  moreover have "(2::rat) powi (?e + 1) = 2 ^ 53 * ?q"
    by (simp add: power_int_diff power_int_add)
  ultimately show "round_magnitude y \<le> 2 powi (?e + 1)"
    by (simp add: round_magnitude_def Let_def)
qed

lemma round_magnitude_pos: "0 < y \<Longrightarrow> 0 < round_magnitude y"
  using round_magnitude_bounds(1)[of y] quantum_pos[of "exponent y"] by linarith

lemma round_magnitude_mono:
  assumes "0 < x" and "x \<le> y"
  shows "round_magnitude x \<le> round_magnitude y"
proof (cases "exponent x = exponent y")
  case True
  let ?q = "(2::rat) powi (exponent y - 52)"
  have "x / ?q \<le> y / ?q"
    using assms(2) by (simp add: divide_right_mono)
  from rhe_mono[OF this]
  have "(of_int (round_half_even (x / ?q)) :: rat) \<le> of_int (round_half_even (y / ?q))"
    by (simp only: of_int_le_iff)
  then show ?thesis
    using True by (simp add: round_magnitude_def Let_def)
next
  case False
  have y: "0 < y" using assms by simp
  from False exponent_mono[OF assms] have "exponent x + 1 \<le> exponent y" by simp
  then have "(2::rat) powi (exponent x + 1) \<le> 2 powi exponent y"
    by (simp add: power_int_increasing)
  with round_magnitude_bounds(2)[OF assms(1)] round_magnitude_bounds(1)[OF y]
  show ?thesis by linarith
qed

lemma rnd_mono: "x \<le> y \<Longrightarrow> rnd x \<le> rnd y"
proof -
  assume le: "x \<le> y"
  consider "0 < x" | "x = 0" | "x < 0" by linarith
  then show ?thesis
  proof cases
    case 1
    then show ?thesis
      using le round_magnitude_mono[OF 1 le] by (simp add: rnd_def)
  next
    case 2
    then show ?thesis
      using le round_magnitude_pos[of y] by (cases "y = 0") (simp_all add: rnd_def less_imp_le)
  next
    case 3
    consider "0 < y" | "y = 0" | "y < 0" by linarith
    then show ?thesis
    proof cases
      case 1
      then show ?thesis
        using 3 round_magnitude_pos[of y] round_magnitude_pos[of "- x"] by (simp add: rnd_def)
    next
      case 2
      then show ?thesis
        using 3 round_magnitude_pos[of "- x"] by (simp add: rnd_def)
    next
      case y: 3
      have "round_magnitude (- y) \<le> round_magnitude (- x)"
        by (rule round_magnitude_mono) (use le y in simp_all)
      then show ?thesis
        using 3 y by (simp add: rnd_def)
    qed
  qed
qed

lemma rnd_minus: "rnd (- x) = - rnd x"
  by (simp add: rnd_def)

lemma rnd_pos: "0 < x \<Longrightarrow> 0 < rnd x"
  by (simp add: rnd_def round_magnitude_pos)

lemma rnd_zero_iff: "rnd x = 0 \<longleftrightarrow> x = 0"
  using round_magnitude_pos[of x] round_magnitude_pos[of "- x"]
  by (auto simp: rnd_def)

lemma exponent_twice: "0 < y \<Longrightarrow> exponent (2 * y) = exponent y + 1"
proof (rule exponent_unique)
  assume y: "0 < y"
  then show "0 < 2 * y" by simp
  show "2 powi (exponent y + 1) \<le> 2 * y"
    using exponent_bounds(1)[OF y] by (simp add: power_int_add)
  show "2 * y < 2 powi (exponent y + 1 + 1)"
    using exponent_bounds(2)[OF y] by (simp add: power_int_add)
qed

lemma round_magnitude_twice:
  assumes "0 < y"
  shows "round_magnitude (2 * y) = 2 * round_magnitude y"
proof -
  let ?q = "(2::rat) powi (exponent y - 52)"
  have q2: "2 powi (exponent (2 * y) - 52) = 2 * ?q"
    by (simp add: exponent_twice[OF assms] power_int_add power_int_diff)
  have "2 * y / (2 * ?q) = y / ?q" by simp
  then show ?thesis
    unfolding round_magnitude_def Let_def q2 by simp
qed

lemma rnd_twice: "rnd (2 * x) = 2 * rnd x"
  using round_magnitude_twice[of x] round_magnitude_twice[of "- x"]
  by (auto simp: rnd_def)

lemma round_magnitude_exact:
  assumes "0 < y" and "y / 2 powi (exponent y - 52) = of_int n"
  shows "round_magnitude y = y"
proof -
  have "round_magnitude y = of_int n * 2 powi (exponent y - 52)"
    using assms(2) by (simp add: round_magnitude_def Let_def)
  also have "\<dots> = y"
    using assms(2) by (simp add: field_simps)
  finally show ?thesis .
qed

lemma round_magnitude_of_int:
  assumes "0 < i" and "i \<le> 2 ^ 53"
  shows "round_magnitude (of_int i) = of_int i"
proof -
  let ?y = "of_int i :: rat"
  have y: "0 < ?y" using assms(1) by simp
  have "?y \<le> of_int (2 ^ 53)"
    using assms(2) by (simp only: of_int_le_iff)
  then have "(2::rat) powi exponent ?y < 2 powi 54"
    using exponent_bounds(1)[OF y] by simp
  then have e: "exponent ?y \<le> 53"
    using pow2_less_imp[of "exponent ?y" 54] by simp
  show ?thesis
  proof (cases "exponent ?y \<le> 52")
    case True
    have "?y / 2 powi (exponent ?y - 52) = ?y * 2 powi (52 - exponent ?y)"
      by (simp add: power_int_diff field_simps)
    also have "\<dots> = of_int (i * 2 ^ nat (52 - exponent ?y))"
      using True by (simp add: power_int_def)
    finally show ?thesis
      by (rule round_magnitude_exact[OF y])
  next
    case False
    with e have e53: "exponent ?y = 53" by simp
    then have "2 ^ 53 \<le> ?y"
      using exponent_bounds(1)[OF y] by simp
    then have "2 ^ 53 \<le> i"
      by (metis of_int_le_iff of_int_numeral of_int_power)
    with assms(2) have i: "i = 2 ^ 53" by simp
    have "(2::rat) powi (exponent ?y - 52) = 2"
      unfolding e53 by simp
    then have "?y / 2 powi (exponent ?y - 52) = ?y / 2"
      by (simp only:)
    also have "\<dots> = of_int (2 ^ 52)"
      unfolding i by simp
    finally have "?y / 2 powi (exponent ?y - 52) = of_int (2 ^ 52)" .
    then show ?thesis
      by (rule round_magnitude_exact[OF y])
  qed
qed

lemma rnd_of_int: "\<bar>i\<bar> \<le> 2 ^ 53 \<Longrightarrow> rnd (of_int i) = of_int i"
  using round_magnitude_of_int[of i] round_magnitude_of_int[of "- i"]
  by (auto simp: rnd_def)

subsection \<open>Auxiliary facts about the primitives and the loops\<close>

lemma rnd_0 [simp]: "rnd 0 = 0"
  by (simp add: rnd_def)

lemma rnd_1 [simp]: "rnd 1 = 1"
  using rnd_of_int[of 1] by simp

lemma rnd_numeral: "(numeral n :: int) \<le> 2 ^ 53 \<Longrightarrow> rnd (numeral n) = numeral n"
  using rnd_of_int[of "numeral n"] by simp

lemma rnd_neg_numeral: "(numeral n :: int) \<le> 2 ^ 53 \<Longrightarrow> rnd (- numeral n) = - numeral n"
  using rnd_of_int[of "- numeral n"] by simp

lemma to_float_zero_iff: "to_float a = 0 \<longleftrightarrow> val a = 0"
  by (cases a) (simp_all add: rnd_zero_iff)









lemma find_peaks_short: "length (filtered_samples m) < 3 \<Longrightarrow> find_peaks m = Inr []"
  by (simp add: find_peaks_def)

lemma intervals_loop_map:
  "intervals_loop peaks idxs acc =
     acc @ map (\<lambda>i. ticks_diff (fst (peaks ! i)) (fst (peaks ! (i - 1)))) idxs"
  by (induction idxs arbitrary: acc) simp_all

lemma ticks_diff_small: "\<bar>a - b\<bar> < 2 ^ 29 \<Longrightarrow> ticks_diff a b = a - b"
  unfolding ticks_diff_def TICKS_PERIOD_def
  by (simp add: abs_less_iff)

lemma add_sample_Inr:
  assumes "smoothing_window m \<noteq> 0"
  shows "add_sample m now sample =
     Inr (let f = (if smoothing_window m \<le> int (length (samples m)) + 1
                   then PyFloat (rnd (to_float (py_sum (slice_from (- smoothing_window m)
                                                      (samples m @ [sample])))
                                      / rnd (of_int (smoothing_window m))))
                   else sample)
          in if window_size m < int (length (samples m)) + 1
             then m\<lparr>samples := tl (samples m @ [sample]), timestamps := tl (timestamps m @ [now]),
                     filtered_samples := tl (filtered_samples m @ [f])\<rparr>
             else m\<lparr>samples := samples m @ [sample], timestamps := timestamps m @ [now],
                     filtered_samples := filtered_samples m @ [f]\<rparr>)"
  using assms by (simp add: add_sample_def num_truediv_def Let_def)

lemma add_sample_window_ok:
  assumes "smoothing_window m \<noteq> 0" and "window_ok m"
  shows "\<exists>m'. add_sample m now sample = Inr m' \<and> window_ok m' \<and>
              smoothing_window m' = smoothing_window m \<and> window_size m' = window_size m"
  unfolding add_sample_Inr[OF assms(1)] using assms(2)
  by (auto simp: window_ok_def Let_def)

lemma feed_window_ok:
  "smoothing_window m \<noteq> 0 \<Longrightarrow> window_ok m \<Longrightarrow>
   \<exists>m'. feed m inputs = Inr m' \<and> window_ok m' \<and> window_size m' = window_size m"
proof (induction inputs arbitrary: m)
  case Nil
  then show ?case by simp
next
  case (Cons p rest)
  from add_sample_window_ok[OF Cons.prems, of "fst p" "snd p"] obtain m1 where
    m1: "add_sample m (fst p) (snd p) = Inr m1" "window_ok m1"
      "smoothing_window m1 = smoothing_window m" "window_size m1 = window_size m"
    by blast
  from Cons.IH[of m1] m1 Cons.prems obtain m' where
    "feed m1 rest = Inr m'" "window_ok m'" "window_size m' = window_size m1"
    by auto
  with m1 show ?case by simp
qed

subsection \<open>The methods on a window\<close>



text \<open>
  C2. Starting from a fresh monitor whose \<open>window_size\<close> is not negative and whose
  \<open>smoothing_window\<close> is not zero (every positive configuration is such), each
  \<open>add_sample\<close> call of any sequence of calls returns, and after each of them the raw,
  timestamp and filtered lists have the same length, which is at most \<open>window_size\<close>.
\<close>

theorem bounded_parallel_window:
  assumes "0 \<le> ws" and "sw \<noteq> 0"
  shows "\<exists>m. feed (init sr ws sw) (take k inputs) = Inr m \<and>
             length (samples m) = length (timestamps m) \<and>
             length (timestamps m) = length (filtered_samples m) \<and>
             int (length (samples m)) \<le> ws"
proof -
  have "smoothing_window (init sr ws sw) \<noteq> 0" "window_ok (init sr ws sw)"
    using assms by (simp_all add: init_def window_ok_def)
  from feed_window_ok[OF this, of "take k inputs"] show ?thesis
    by (auto simp: window_ok_def init_def)
qed

theorem bounded_parallel_window_witness:
  "(0::int) \<le> 3 \<and> (2::int) \<noteq> 0 \<and>
   feed (init 100 3 2)
     (take 5 [(0, PyInt 1), (1, PyInt 2), (2, PyInt 3), (3, PyInt 4), (4, PyInt 5), (5, PyInt 6)]) =
     Inr \<lparr>sample_rate = 100, window_size = 3, smoothing_window = 2,
          samples = [PyInt 3, PyInt 4, PyInt 5], timestamps = [2, 3, 4],
          filtered_samples = [PyFloat (5 / 2), PyFloat (7 / 2), PyFloat (9 / 2)]\<rparr>"
proof -
  have "feed (init 100 3 2)
     (take 5 [(0, PyInt 1), (1, PyInt 2), (2, PyInt 3), (3, PyInt 4), (4, PyInt 5), (5, PyInt 6)]) =
     Inr \<lparr>sample_rate = 100, window_size = 3, smoothing_window = 2,
          samples = [PyInt 3, PyInt 4, PyInt 5], timestamps = [2, 3, 4],
          filtered_samples = [PyFloat (5 / 2), PyFloat (7 / 2), PyFloat (9 / 2)]\<rparr>"
    by code_simp
  then show ?thesis
    using bounded_parallel_window [of 3 2 100 5
        "[(0, PyInt 1), (1, PyInt 2), (2, PyInt 3), (3, PyInt 4), (4, PyInt 5), (5, PyInt 6)]"]
    by (simp del: feed.simps take.simps)
qed

text \<open>
  C5. Too little history is a result, not an exception: with fewer than three filtered
  samples \<open>find_peaks\<close> returns the empty list, and whenever \<open>find_peaks\<close> returns fewer
  than two peaks \<open>calculate_heart_rate\<close> returns \<open>None\<close>.
\<close>

theorem insufficient_history_no_error:
  "(length (filtered_samples m) < 3 \<longrightarrow> find_peaks m = Inr []) \<and>
   (find_peaks m = Inr peaks \<and> length peaks < 2 \<longrightarrow> calculate_heart_rate m = Inr None)"
  by (simp add: find_peaks_short calculate_heart_rate_def heart_rate_of_def)

theorem insufficient_history_no_error_witness:
  "length (filtered_samples (init 100 10 5)) < 3 \<and> find_peaks (init 100 10 5) = Inr [] \<and>
   find_peaks single_pulse = Inr [(3, PyInt 10)] \<and> length [(3, PyInt 10) :: peak] < 2 \<and>
   calculate_heart_rate single_pulse = Inr None"
proof -
  have fp: "find_peaks single_pulse = Inr [(3, PyInt 10)]"
    by code_simp
  have e: "length (filtered_samples (init 100 10 5)) < 3"
    by (simp add: init_def)
  show ?thesis
    using fp e insufficient_history_no_error [of "init 100 10 5"]
      insufficient_history_no_error [of single_pulse "[(3, PyInt 10)]"]
    by simp
qed

text \<open>
  C7. \<open>calculate_heart_rate\<close> has no guard for a zero or negative interval between
  peaks. A window the monitor reaches when five samples arrive at one clock tick has two
  peaks with equal timestamps, and the final division raises \<open>ZeroDivisionError\<close>; a
  window reached with decreasing clock readings has two peaks, and the call returns the
  negative rate \<open>-30000\<close>.
\<close>

theorem unguarded_peak_intervals:
  "feed (init 100 10 1) [(5, PyInt 0), (5, PyInt 10), (5, PyInt 0), (5, PyInt 10), (5, PyInt 0)] =
     Inr duplicate_ticks \<and>
   find_peaks duplicate_ticks = Inr [(5, PyFloat 10), (5, PyFloat 10)] \<and>
   calculate_heart_rate duplicate_ticks = Inl ZeroDivisionError \<and>
   feed (init 100 10 1) [(4, PyInt 0), (3, PyInt 10), (2, PyInt 0), (1, PyInt 10), (0, PyInt 0)] =
     Inr backward_ticks \<and>
   find_peaks backward_ticks = Inr [(3, PyFloat 10), (1, PyFloat 10)] \<and>
   calculate_heart_rate backward_ticks = Inr (Some (PyFloat (- 30000)))"
proof (intro conjI)
  show "feed (init 100 10 1)
      [(5, PyInt 0), (5, PyInt 10), (5, PyInt 0), (5, PyInt 10), (5, PyInt 0)] =
     Inr duplicate_ticks"
    by code_simp
  show "find_peaks duplicate_ticks = Inr [(5, PyFloat 10), (5, PyFloat 10)]"
    by code_simp
  show "calculate_heart_rate duplicate_ticks = Inl ZeroDivisionError"
    by code_simp
  show "feed (init 100 10 1)
      [(4, PyInt 0), (3, PyInt 10), (2, PyInt 0), (1, PyInt 10), (0, PyInt 0)] =
     Inr backward_ticks"
    by code_simp
  show "find_peaks backward_ticks = Inr [(3, PyFloat 10), (1, PyFloat 10)]"
    by code_simp
  show "calculate_heart_rate backward_ticks = Inr (Some (PyFloat (- 30000)))"
    by code_simp
qed

text \<open>
  C8, as the claim states it, fails: \<open>add_sample\<close> has the single parameter \<open>sample\<close>.
  A call that passes a value and a timestamp raises \<open>TypeError\<close>, and a call that passes
  the value alone records the clock reading.
\<close>

theorem add_sample_takes_no_timestamp:
  "add_sample_call (init 100 10 5) 5 [PyInt 7, PyInt 1000] = Inl TypeError \<and>
   add_sample_call (init 100 10 5) 5 [PyInt 7] =
     Inr \<lparr>sample_rate = 100, window_size = 10, smoothing_window = 5,
          samples = [PyInt 7], timestamps = [5], filtered_samples = [PyInt 7]\<rparr>"
  by (simp add: add_sample_call_def init_def add_sample_def Let_def)

text \<open>
  C8, amended. The append operation takes one input from the caller, the raw value, and
  reads the timestamp itself from the millisecond clock at the time of the call. On a
  window with as many timestamps as raw values, a positive \<open>window_size\<close> and a nonzero
  \<open>smoothing_window\<close> it returns, and it has appended exactly that clock reading to the
  timestamp list and the raw value to the raw list, after dropping the oldest entry of
  each when the window was full.
\<close>

theorem add_sample_records_clock_reading:
  assumes "length (timestamps m) = length (samples m)"
    and "1 \<le> window_size m" and "smoothing_window m \<noteq> 0"
  shows "\<exists>m'. add_sample_call m now [sample] = Inr m' \<and>
     timestamps m' =
       (if window_size m \<le> int (length (timestamps m)) then tl (timestamps m)
        else timestamps m) @ [now] \<and>
     samples m' =
       (if window_size m \<le> int (length (samples m)) then tl (samples m)
        else samples m) @ [sample]"
proof -
  have "window_size m \<le> int (length (samples m)) \<Longrightarrow> samples m \<noteq> [] \<and> timestamps m \<noteq> []"
    using assms(1,2) by auto
  then show ?thesis
    unfolding add_sample_call_def list.case add_sample_Inr[OF assms(3)] using assms(1)
    by (auto simp: Let_def)
qed

theorem add_sample_records_clock_reading_witness:
  "length (timestamps (init 100 10 5)) = length (samples (init 100 10 5)) \<and>
   1 \<le> window_size (init 100 10 5) \<and> smoothing_window (init 100 10 5) \<noteq> 0 \<and>
   (\<exists>m'. add_sample_call (init 100 10 5) 42 [PyInt 7] = Inr m' \<and>
         timestamps m' = [42] \<and> samples m' = [PyInt 7])"
  using add_sample_records_clock_reading [of "init 100 10 5" 42 "PyInt 7"]
  by (simp add: init_def)

text \<open>
  C10. The constructor stores any \<open>smoothing_window\<close>, also a non-positive one. With
  \<open>smoothing_window = 0\<close> the first \<open>add_sample\<close> call, and every call on any window,
  raises \<open>ZeroDivisionError\<close>; with \<open>smoothing_window \<ge> 1\<close> every call returns.
\<close>

theorem smoothing_window_zero_divides:
  "init sr ws sw =
     \<lparr>sample_rate = sr, window_size = ws, smoothing_window = sw,
      samples = [], timestamps = [], filtered_samples = []\<rparr> \<and>
   add_sample (init sr ws 0) now sample = Inl ZeroDivisionError \<and>
   (smoothing_window m = 0 \<longrightarrow> add_sample m now sample = Inl ZeroDivisionError) \<and>
   (1 \<le> smoothing_window m \<longrightarrow> (\<exists>m'. add_sample m now sample = Inr m'))"
  by (simp add: init_def add_sample_def num_truediv_def Let_def)

theorem smoothing_window_zero_divides_witness:
  "smoothing_window (init 100 10 0) = 0 \<and>
   add_sample (init 100 10 0) 5 (PyInt 7) = Inl ZeroDivisionError \<and>
   1 \<le> smoothing_window (init 100 10 5) \<and>
   (\<exists>m'. add_sample (init 100 10 5) 5 (PyInt 7) = Inr m')"
  using smoothing_window_zero_divides [of 100 10 0 5 "PyInt 7" "init 100 10 0"]
    smoothing_window_zero_divides [of 100 10 5 5 "PyInt 7" "init 100 10 5"]
  by (simp add: init_def)

subsection \<open>What a run from a fresh monitor stores\<close>


lemma length_trailing [simp]: "length (trailing k xs) = min k (length xs)"
  by (simp add: trailing_def)




lemma length_filtered_history [simp]: "length (filtered_history ws sw xs) = length xs"
  by (simp add: filtered_history_def)







subsection \<open>The moving-average filter\<close>



subsection \<open>The heart rate\<close>


lemma heart_rate_of_mean:
  assumes "2 \<le> length peaks"
  shows "heart_rate_of peaks =
     (let intervals = map (\<lambda>i. ticks_diff (fst (peaks ! i)) (fst (peaks ! (i - 1))))
                        [1 ..< length peaks]
      in if sum_list intervals = 0 then Inl ZeroDivisionError
         else Inr (Some (PyFloat (rnd (rnd 60000 /
                rnd (rnd (of_int (sum_list intervals)) / rnd (of_nat (length intervals))))))))"
proof -
  let ?ivs = "map (\<lambda>i. ticks_diff (fst (peaks ! i)) (fst (peaks ! (i - 1)))) [1 ..< length peaks]"
  have n: "0 < length ?ivs" using assms by simp
  then have rn: "rnd (of_nat (length ?ivs)) \<noteq> 0"
    by (simp add: rnd_zero_iff)
  have z: "rnd (rnd (of_int (sum_list ?ivs)) / rnd (of_nat (length ?ivs))) = 0 \<longleftrightarrow>
      sum_list ?ivs = 0"
    using rn by (simp add: rnd_zero_iff)
  show ?thesis
    using assms n z
    by (simp add: heart_rate_of_def intervals_loop_map num_truediv_def Let_def)
qed

text \<open>
  C4, as the claim states it, fails: five samples read at one clock tick leave two peaks
  with the same timestamp, the mean interval is zero and \<open>calculate_heart_rate\<close>
  returns nothing: the division of line 75 raises \<open>ZeroDivisionError\<close>.
\<close>

theorem zero_mean_interval_raises:
  "feed (init 100 10 1) [(7, PyInt 0), (7, PyInt 20), (7, PyInt 0), (7, PyInt 20), (7, PyInt 0)] =
     Inr same_tick_beats \<and>
   find_peaks same_tick_beats = Inr [(7, PyFloat 20), (7, PyFloat 20)] \<and>
   2 \<le> length [(7, PyFloat 20), (7 :: int, PyFloat 20)] \<and>
   calculate_heart_rate same_tick_beats = Inl ZeroDivisionError"
proof (intro conjI)
  show "feed (init 100 10 1)
      [(7, PyInt 0), (7, PyInt 20), (7, PyInt 0), (7, PyInt 20), (7, PyInt 0)] =
     Inr same_tick_beats"
    by code_simp
  show "find_peaks same_tick_beats = Inr [(7, PyFloat 20), (7, PyFloat 20)]"
    by code_simp
  show "2 \<le> length [(7, PyFloat 20), (7 :: int, PyFloat 20)]"
    by simp
  show "calculate_heart_rate same_tick_beats = Inl ZeroDivisionError"
    by code_simp
qed

text \<open>
  C4, amended. When \<open>find_peaks\<close> yields at least two peaks, the intervals are the
  \<open>ticks_diff\<close> differences between the timestamps of consecutive peaks. If their sum is
  zero \<open>calculate_heart_rate\<close> raises \<open>ZeroDivisionError\<close>. Otherwise it returns the
  float quotient of 60000 by the mean interval, the mean interval being itself the float
  quotient of the sum of the intervals by their number: each of the two divisions rounds
  to the nearest float. With peaks at 0 ms, 1000 ms and 2000 ms it returns exactly 60.
\<close>

theorem heart_rate_from_mean_interval:
  assumes "find_peaks m = Inr peaks" and "2 \<le> length peaks"
  shows "let intervals = map (\<lambda>i. ticks_diff (fst (peaks ! i)) (fst (peaks ! (i - 1))))
                           [1 ..< length peaks]
         in (sum_list intervals = 0 \<longrightarrow> calculate_heart_rate m = Inl ZeroDivisionError) \<and>
            (sum_list intervals \<noteq> 0 \<longrightarrow>
               calculate_heart_rate m =
                 Inr (Some (PyFloat (rnd (60000 /
                   rnd (rnd (of_int (sum_list intervals)) / rnd (of_nat (length intervals)))))))) \<and>
            (map fst peaks = [0, 1000, 2000] \<longrightarrow>
               calculate_heart_rate m = Inr (Some (PyFloat 60)))"
proof -
  let ?ivs = "map (\<lambda>i. ticks_diff (fst (peaks ! i)) (fst (peaks ! (i - 1)))) [1 ..< length peaks]"
  have r6: "rnd 60000 = 60000"
    by (simp add: rnd_numeral)
  have gen: "calculate_heart_rate m =
      (if sum_list ?ivs = 0 then Inl ZeroDivisionError
       else Inr (Some (PyFloat (rnd (60000 /
              rnd (rnd (of_int (sum_list ?ivs)) / rnd (of_nat (length ?ivs))))))))"
    using heart_rate_of_mean[OF assms(2)] assms(1)
    by (simp add: calculate_heart_rate_def Let_def r6)
  have beats: "calculate_heart_rate m = Inr (Some (PyFloat 60))"
    if ts: "map fst peaks = [0, 1000, 2000]"
  proof -
    from ts have l3: "length peaks = 3"
      by (metis length_map length_Cons list.size(3) numeral_3_eq_3)
    from ts have nth: "fst (peaks ! 0) = 0" "fst (peaks ! 1) = 1000" "fst (peaks ! 2) = 2000"
      using l3 by (metis nth_map nth_Cons_0 zero_less_numeral,
          metis One_nat_def nth_map nth_Cons_0 nth_Cons_Suc one_less_numeral_iff semiring_norm(77),
          metis nth_map nth_Cons_0 nth_Cons_Suc numeral_2_eq_2 lessI numeral_3_eq_3)
    have ivs: "?ivs = [1000, 1000]"
      using l3 nth by (simp add: upt_conv_Cons ticks_diff_small numeral_2_eq_2)
    show ?thesis
      unfolding gen ivs by (simp add: rnd_numeral)
  qed
  show ?thesis
    unfolding Let_def using gen beats by simp
qed

theorem heart_rate_from_mean_interval_witness:
  "find_peaks three_beats = Inr [(0, PyFloat 10), (1000, PyFloat 10), (2000, PyFloat 10)] \<and>
   2 \<le> length [(0, PyFloat 10), (1000, PyFloat 10), (2000, PyFloat 10) :: peak] \<and>
   map fst [(0, PyFloat 10), (1000, PyFloat 10), (2000, PyFloat 10) :: peak] = [0, 1000, 2000] \<and>
   calculate_heart_rate three_beats = Inr (Some (PyFloat 60))"
proof -
  have fp: "find_peaks three_beats = Inr [(0, PyFloat 10), (1000, PyFloat 10), (2000, PyFloat 10)]"
    by code_simp
  have l: "2 \<le> length [(0, PyFloat 10), (1000, PyFloat 10), (2000, PyFloat 10) :: peak]"
    by simp
  have t: "map fst [(0, PyFloat 10), (1000, PyFloat 10), (2000, PyFloat 10) :: peak] = [0, 1000, 2000]"
    by simp
  from heart_rate_from_mean_interval [OF fp l] t
  have "calculate_heart_rate three_beats = Inr (Some (PyFloat 60))"
    unfolding Let_def by blast
  with fp l t show ?thesis by (intro conjI)
qed

end
